theory Spec2Isabelle
  imports Main "HOL-Library.Sublist"
begin

section \<open>Rendered markup\<close>

text \<open>
  The components are React function components: each maps its props (and, for the
  Dropdown, its hook state) to a tree of elements. An element has a tag, an ordered
  list of attributes and its children. Where JSX writes an attribute twice (an explicit
  attribute followed by a spread), the later one wins, so attributes are read from the
  end of the list.
\<close>

datatype node = Element string "(string \<times> string) list" "node list" | TextNode string

definition attr :: "string \<Rightarrow> (string \<times> string) list \<Rightarrow> string option" where
  "attr k as = map_of (rev as) k"

text \<open>
  \<^verbatim>\<open>cn\<close> is imported from the utilities module, which is not part of the sources at
  hand; it merges a list of class values (strings or \<^verbatim>\<open>undefined\<close>) into one class
  string. Every component takes it as a parameter.
\<close>

type_synonym ClassValue = "string option"
type_synonym class_merge = "ClassValue list \<Rightarrow> string"

text \<open>
  The props every component inherits from the HTML attribute interfaces:
  \<^verbatim>\<open>className\<close> and \<^verbatim>\<open>children\<close>, which the components destructure, and the
  remaining attributes, which they spread onto an element.
\<close>

record HTMLAttributes =
  className :: "string option"
  children :: "node list"
  props :: "(string \<times> string) list"

section \<open>Button\<close>

datatype Size = sm | md | lg

record ButtonProps = HTMLAttributes +
  size :: "Size option"

definition baseStyles :: string where
  "baseStyles = ''inline-flex items-center justify-center font-medium''"

definition skinStyles :: string where
  "skinStyles = ''bg-(--bg) text-(--text)''"

fun sizeStyles :: "Size \<Rightarrow> string" where
  "sizeStyles sm = ''px-3 py-0.5 text-xs rounded-md''"
| "sizeStyles md = ''px-5 py-1.5 text-sm rounded-lg''"
| "sizeStyles lg = ''px-7 py-2.5 text-base rounded-xl''"

definition Button :: "class_merge \<Rightarrow> ButtonProps \<Rightarrow> node" where
  "Button cn p =
     (let size = (case size p of None \<Rightarrow> sm | Some s \<Rightarrow> s) in
      Element ''button''
        ([(''data-skin'', ''button''),
          (''className'', cn [Some baseStyles, Some skinStyles, Some (sizeStyles size), className p])]
         @ props p)
        (children p))"

section \<open>SearchBar\<close>

datatype Variant = default | outline

record SearchBarProps = HTMLAttributes +
  variant :: "Variant option"

definition containerStyles_base :: string where
  "containerStyles_base = ''flex items-center rounded-full px-4 py-2''"

fun containerStyles_skin :: "Variant \<Rightarrow> string" where
  "containerStyles_skin default = ''bg-(--bg) text-(--text)''"
| "containerStyles_skin outline = ''outline outline-(--outline) text-(--text)''"

definition iconStyles_base :: string where
  "iconStyles_base = ''size-5 mr-2''"

definition iconStyles_skin :: string where
  "iconStyles_skin = ''text-(--text)''"

definition inputStyles_base :: string where
  "inputStyles_base = ''bg-transparent outline-none flex-1''"

definition inputStyles_skin :: string where
  "inputStyles_skin = ''text-(--text) placeholder:text-(--text)''"

definition SearchBar :: "class_merge \<Rightarrow> SearchBarProps \<Rightarrow> node" where
  "SearchBar cn p =
     (let variant = (case variant p of None \<Rightarrow> default | Some v \<Rightarrow> v) in
      Element ''div''
        [(''data-skin'', ''searchbar''),
         (''className'', cn [Some containerStyles_base, Some (containerStyles_skin variant), className p])]
        [Element ''MagnifyingGlassIcon''
           [(''data-skin'', ''icon''),
            (''className'', cn [Some iconStyles_base, Some iconStyles_skin])]
           [],
         Element ''input''
           ([(''type'', ''search''),
             (''className'', cn [Some inputStyles_base, Some inputStyles_skin])]
            @ props p)
           []])"

section \<open>Dropdown\<close>

record Option =
  label :: string
  "value" :: string

text \<open>
  The options prop is a JavaScript array. The effect's dependency list compares it by
  reference (\<^verbatim>\<open>Object.is\<close>), so an array is its reference together with its elements.
\<close>

datatype 'a array = Array (ref: nat) (elems: "'a list")

text \<open>
  \<^verbatim>\<open>value\<close>, \<^verbatim>\<open>onChange\<close> and \<^verbatim>\<open>placeholder\<close> are optional. The callback returns
  nothing; what it does is an effect on the world \<open>'w\<close> outside the component.
\<close>

record 'w DropdownProps =
  options :: "Option array"
  value_prop :: "string option"
  onChange :: "(string \<Rightarrow> 'w \<Rightarrow> 'w) option"
  placeholder :: "string option"

text \<open>
  The hook state: \<^verbatim>\<open>useState<Option | null>(null)\<close>. The state holds the option
  object found in the array; props are taken as immutable, as React requires, so the
  object is the record of its fields.
\<close>

record DropdownState =
  selectedOption :: "Option option"

definition Dropdown_init :: DropdownState where
  "Dropdown_init = \<lparr>selectedOption = None\<rparr>"

text \<open>
  \<^verbatim>\<open>handleChange\<close> sets the selection to the first option whose value is \<open>val\<close> (or to
  null) and then calls \<^verbatim>\<open>onChange\<close> with \<open>val\<close> when the prop is present.
\<close>

definition handleChange ::
  "'w DropdownProps \<Rightarrow> string \<Rightarrow> DropdownState \<times> 'w \<Rightarrow> DropdownState \<times> 'w" where
  "handleChange p val = (\<lambda>(st, w).
     (st\<lparr>selectedOption := find (\<lambda>opt. value opt = val) (elems (options p))\<rparr>,
      (case onChange p of None \<Rightarrow> w | Some f \<Rightarrow> f val w)))"

text \<open>
  The effect body. The value prop may be \<^verbatim>\<open>undefined\<close>, which no option value
  (a string) is strictly equal to.
\<close>

definition Dropdown_effect :: "'w DropdownProps \<Rightarrow> DropdownState \<Rightarrow> DropdownState" where
  "Dropdown_effect p st =
     st\<lparr>selectedOption := find (\<lambda>opt. Some (value opt) = value_prop p) (elems (options p))\<rparr>"

text \<open>
  The effect runs after the first render, and after a later render when a dependency
  (\<^verbatim>\<open>[options, value]\<close>) differs from the previous render's.
\<close>

definition deps_changed :: "'w DropdownProps \<Rightarrow> 'w DropdownProps \<Rightarrow> bool" where
  "deps_changed prev p \<longleftrightarrow>
     ref (options prev) \<noteq> ref (options p) \<or> value_prop prev \<noteq> value_prop p"

definition Dropdown_mount :: "'w DropdownProps \<Rightarrow> DropdownState" where
  "Dropdown_mount p = Dropdown_effect p Dropdown_init"

definition Dropdown_update ::
  "'w DropdownProps \<Rightarrow> 'w DropdownProps \<Rightarrow> DropdownState \<Rightarrow> DropdownState" where
  "Dropdown_update prev p st = (if deps_changed prev p then Dropdown_effect p st else st)"

definition buttonStyles_base :: string where
  "buttonStyles_base = ''relative w-full cursor-pointer rounded-md border py-2 pl-3 pr-10 text-left shadow-sm focus:outline-none focus:ring-2 text-sm''"

definition buttonStyles_skin :: string where
  "buttonStyles_skin = ''border-(--border) bg-(--bg) ring-(--ring) text-(--text)''"

definition chevronStyles_base :: string where
  "chevronStyles_base = ''size-5''"

definition chevronStyles_skin :: string where
  "chevronStyles_skin = ''text-(--text)''"

definition optionsStyles_base :: string where
  "optionsStyles_base = ''absolute z-10 mt-1 w-full shadow-lg max-h-60 rounded-md py-1 text-sm ring-1 overflow-auto focus:outline-none''"

definition optionsStyles_skin :: string where
  "optionsStyles_skin = ''bg-(--bg) ring-(--ring)''"

definition optionStyles_base :: string where
  "optionStyles_base = ''cursor-pointer select-none relative py-2 pl-8 pr-4''"

definition optionStyles_skin :: string where
  "optionStyles_skin = ''bg-(--bg) text-(--text)''"

definition checkmarkStyles_base :: string where
  "checkmarkStyles_base = ''absolute inset-y-0 left-0 flex items-center pl-1.5''"

definition checkmarkStyles_skin :: string where
  "checkmarkStyles_skin = ''text-(--text)''"

text \<open>The text of the button: the selected option's label, or the placeholder.\<close>

definition button_text :: "'w DropdownProps \<Rightarrow> DropdownState \<Rightarrow> string" where
  "button_text p st =
     (let placeholder = (case placeholder p of None \<Rightarrow> ''Select an option...'' | Some s \<Rightarrow> s) in
      case selectedOption st of Some opt \<Rightarrow> label opt | None \<Rightarrow> placeholder)"

text \<open>The value handed to the Listbox: \<^verbatim>\<open>selectedOption?.value || ""\<close>.\<close>

definition listbox_value :: "DropdownState \<Rightarrow> string" where
  "listbox_value st = (case selectedOption st of None \<Rightarrow> [] | Some opt \<Rightarrow> value opt)"

text \<open>
  One rendered option. The Listbox tells the render prop whether the option is the
  selected one; the library compares the option's value with the Listbox's value.
\<close>

definition render_option :: "class_merge \<Rightarrow> string \<Rightarrow> Option \<Rightarrow> node" where
  "render_option cn v option =
     (let selected = (value option = v) in
      Element ''ListboxOption''
        [(''data-skin'', ''dropdown-option''),
         (''key'', value option),
         (''value'', value option),
         (''className'', cn [Some optionStyles_base, Some optionStyles_skin])]
        ([Element ''span''
            [(''className'',
              cn [Some ''block truncate'', Some (if selected then ''font-medium'' else ''font-normal'')])]
            [TextNode (label option)]]
         @ (if selected then
              [Element ''span''
                 [(''data-skin'', ''dropdown-option-checkmark''),
                  (''className'', cn [Some checkmarkStyles_base, Some checkmarkStyles_skin])]
                 [TextNode [CHR 0xC3, CHR 0xA2, CHR 0xC5, CHR 0x93, CHR 0xE2, CHR 0x80, CHR 0x9C]]]
            else [])))"

text \<open>
  The rendered Dropdown. Props that are not strings (the \<^verbatim>\<open>onChange\<close> handler of the
  Listbox, which is \<open>handleChange\<close>, the \<^verbatim>\<open>as\<close> props and the animation objects of the
  options list) are not attributes of the tree.
\<close>

definition Dropdown :: "class_merge \<Rightarrow> 'w DropdownProps \<Rightarrow> DropdownState \<Rightarrow> node" where
  "Dropdown cn p st =
     Element ''Listbox''
       [(''data-skin'', ''dropdown''), (''value'', listbox_value st)]
       [Element ''div'' [(''className'', ''relative'')]
          [Element ''ListboxButton''
             [(''data-skin'', ''dropdown-button''),
              (''className'', cn [Some buttonStyles_base, Some buttonStyles_skin])]
             [Element ''span'' [] [TextNode (button_text p st)],
              Element ''span''
                [(''className'', ''absolute inset-y-0 right-0 flex items-center pr-2 pointer-events-none'')]
                [Element ''ChevronDownIcon''
                   [(''data-skin'', ''dropdown-chevron''),
                    (''className'', cn [Some chevronStyles_base, Some chevronStyles_skin]),
                    (''aria-hidden'', ''true'')]
                   []]],
           Element ''Transition''
             [(''leave'', ''transition ease-in duration-100''),
              (''leaveFrom'', ''opacity-100''),
              (''leaveTo'', ''opacity-0'')]
             [Element ''ListboxOptions''
                [(''data-skin'', ''dropdown-options''),
                 (''className'', cn [Some optionsStyles_base, Some optionsStyles_skin])]
                (map (render_option cn (listbox_value st)) (elems (options p)))]]]"

section \<open>Skin identifiers of a rendered tree\<close>

text \<open>
  An element declares a skin point by its \<^verbatim>\<open>data-skin\<close> attribute. \<open>skin_pairs\<close>
  lists every child skin point of a tree together with its parent, the nearest
  enclosing skin point; \<open>skin_ids\<close> lists all identifiers, the root's first.
\<close>

fun skin_pairs :: "string option \<Rightarrow> node \<Rightarrow> (string \<times> string) list" where
  "skin_pairs parent (TextNode s) = []"
| "skin_pairs parent (Element t as cs) =
     (case attr ''data-skin'' as of
        None \<Rightarrow> concat (map (skin_pairs parent) cs)
      | Some k \<Rightarrow>
          (case parent of None \<Rightarrow> [] | Some q \<Rightarrow> [(q, k)])
          @ concat (map (skin_pairs (Some k)) cs))"

fun skin_ids :: "node \<Rightarrow> string list" where
  "skin_ids (TextNode s) = []"
| "skin_ids (Element t as cs) =
     (case attr ''data-skin'' as of None \<Rightarrow> [] | Some k \<Rightarrow> [k]) @ concat (map skin_ids cs)"

text \<open>
  Reading a rendered tree: the attributes of an element, the text a subtree shows, and
  the elements of a tree with a given skin identifier or a given tag, in document order.
\<close>

fun node_attrs :: "node \<Rightarrow> (string \<times> string) list" where
  "node_attrs (Element t as cs) = as"
| "node_attrs (TextNode s) = []"

fun text_content :: "node \<Rightarrow> string" where
  "text_content (TextNode s) = s"
| "text_content (Element t as cs) = concat (map text_content cs)"

fun elements_with_skin :: "string \<Rightarrow> node \<Rightarrow> node list" where
  "elements_with_skin k (TextNode s) = []"
| "elements_with_skin k (Element t as cs) =
     (if attr ''data-skin'' as = Some k then [Element t as cs] else [])
     @ concat (map (elements_with_skin k) cs)"

fun elements_with_tag :: "string \<Rightarrow> node \<Rightarrow> node list" where
  "elements_with_tag g (TextNode s) = []"
| "elements_with_tag g (Element t as cs) =
     (if t = g then [Element t as cs] else []) @ concat (map (elements_with_tag g) cs)"

section \<open>Style hooks referenced by a skin string\<close>

text \<open>
  A skin string is a space-separated list of Tailwind classes. A class of the form
  \<^verbatim>\<open>u-(--v)\<close>, possibly behind variant prefixes such as \<^verbatim>\<open>placeholder:\<close>, fills the
  Tailwind property \<^verbatim>\<open>u\<close> from the CSS custom property \<^verbatim>\<open>--v\<close>. \<open>skin_hooks\<close>
  lists these pairs \<open>(u, v)\<close> in the order the string names them.
\<close>

fun split_on :: "char \<Rightarrow> string \<Rightarrow> string list" where
  "split_on d [] = [[]]"
| "split_on d (c # cs) =
     (if c = d then [] # split_on d cs
      else (case split_on d cs of [] \<Rightarrow> [[c]] | w # ws \<Rightarrow> (c # w) # ws))"

definition class_names :: "string \<Rightarrow> string list" where
  "class_names s = filter (\<lambda>w. w \<noteq> []) (split_on CHR '' '' s)"

definition strip_variants :: "string \<Rightarrow> string" where
  "strip_variants c = last (split_on CHR '':'' c)"

fun find_hook :: "string \<Rightarrow> string \<Rightarrow> (string \<times> string) option" where
  "find_hook u [] = None"
| "find_hook u (c # cs) =
     (if take 4 (c # cs) = ''-(--'' then
        (let r = drop 4 (c # cs) in
         if r \<noteq> [] \<and> last r = CHR '')'' then Some (rev u, butlast r) else None)
      else find_hook (c # u) cs)"

definition skin_hooks :: "string \<Rightarrow> (string \<times> string) list" where
  "skin_hooks s = List.map_filter (\<lambda>c. find_hook [] (strip_variants c)) (class_names s)"

definition skin_vars :: "string \<Rightarrow> string set" where
  "skin_vars s = snd ` set (skin_hooks s)"

text \<open>The skin strings of the three components, and the hook names they use.\<close>

definition skin_strings :: "string list" where
  "skin_strings =
     [skinStyles,
      containerStyles_skin default, containerStyles_skin outline, iconStyles_skin, inputStyles_skin,
      buttonStyles_skin, chevronStyles_skin, optionsStyles_skin, optionStyles_skin,
      checkmarkStyles_skin]"

definition vocabulary :: "string set" where
  "vocabulary = {''bg'', ''text'', ''ring'', ''outline'', ''border''}"

section \<open>The token-resolution model\<close>

text \<open>
  The components only name skin identifiers and style hooks; which value a hook takes
  is decided by theme style sheets and the platform's cascade, neither of which is
  among the sources at hand. The definitions of this section follow the description of
  the Cascade Evaluator and its data model.
\<close>

text \<open>Modelled from the spec: the error taxonomy of the resolution engine.\<close>

datatype error =
  DuplicateIdentifier | UnknownSkin | UnknownTarget | UnknownTheme
  | CyclicReference | UnresolvedVariable

text \<open>
  Modelled from the spec: a SkinPoint has an identifier, a nullable reference to its
  parent SkinPoint and the ordered set of variable names it exposes.
\<close>

datatype SkinPoint =
  SkinPoint (skin_id: string) (parent: "SkinPoint option") (exposed: "string list")

text \<open>
  Modelled from the spec: the value of a rule is a literal or a reference to another
  variable.
\<close>

datatype Value = Literal string | Reference string

text \<open>
  Modelled from the spec: a SkinRule names its target SkinPoint, its target variable, a
  variant-set predicate (empty for the base rule) and its value.
\<close>

record SkinRule =
  target :: string
  variable :: string
  predicate :: "string set"
  rule_value :: Value

text \<open>
  Modelled from the spec: a Theme is an identifier and an ordered list of rules. The
  optional parent theme of the data model is left out: the evaluator collects the rules
  of the active theme only, and no rule is given for inheriting from a parent.
\<close>

record Theme =
  theme_id :: string
  rules :: "SkinRule list"

text \<open>
  Modelled from the spec: a ResolvedStyle snapshot is a flat map from variable names to
  concrete values, here in the order the SkinPoint exposes the variables.
\<close>

type_synonym ResolvedStyle = "(string \<times> string) list"

text \<open>
  Modelled from the spec: step 1 of the Cascade Evaluator, the ancestor chain of a
  SkinPoint from the root to the SkinPoint itself.
\<close>

fun chain :: "SkinPoint \<Rightarrow> SkinPoint list" where
  "chain (SkinPoint i None xs) = [SkinPoint i None xs]"
| "chain (SkinPoint i (Some q) xs) = chain q @ [SkinPoint i (Some q) xs]"

text \<open>
  Modelled from the spec: step 2, every rule of the theme whose target is the given
  SkinPoint and variable, in declaration order.
\<close>

definition collect :: "Theme \<Rightarrow> string \<Rightarrow> string \<Rightarrow> SkinRule list" where
  "collect t q x = filter (\<lambda>r. target r = q \<and> variable r = x) (rules t)"

text \<open>
  Modelled from the spec: step 3, the base rule (empty predicate) gives the starting
  value. A theme has at most one base rule per SkinPoint and variable; should it declare
  several, the last one is taken, as later declarations redefine earlier ones.
\<close>

definition base_value :: "SkinRule list \<Rightarrow> Value option" where
  "base_value rs =
     (case filter (\<lambda>r. predicate r = {}) rs of
        [] \<Rightarrow> None
      | b # bs \<Rightarrow> Some (rule_value (last (b # bs))))"

text \<open>
  Modelled from the spec: step 4, a rule overrides when its predicate is a non-empty
  subset of the active variant set.
\<close>

definition overrides :: "string set \<Rightarrow> SkinRule \<Rightarrow> bool" where
  "overrides V r \<longleftrightarrow> predicate r \<noteq> {} \<and> predicate r \<subseteq> V"

text \<open>
  Modelled from the spec: steps 3 and 4 at one SkinPoint: start from the base value and
  apply the variant overrides in declaration order.
\<close>

definition point_value :: "SkinRule list \<Rightarrow> string set \<Rightarrow> Value option" where
  "point_value rs V =
     foldl (\<lambda>cur r. if overrides V r then Some (rule_value r) else cur) (base_value rs) rs"

text \<open>
  Modelled from the spec: step 6, the value of a variable is the one produced by the
  deepest SkinPoint of the chain that defines a rule for it; there is none when no
  SkinPoint of the chain defines a rule, or when the deepest one has neither a base
  rule nor an active variant rule.
\<close>

definition cascade :: "Theme \<Rightarrow> SkinPoint \<Rightarrow> string set \<Rightarrow> string \<Rightarrow> Value option" where
  "cascade t p V x =
     (let defining = filter (\<lambda>q. collect t (skin_id q) x \<noteq> []) (chain p) in
      if defining = [] then None
      else point_value (collect t (skin_id (last defining)) x) V)"

text \<open>
  Modelled from the spec: steps 5 and 6, resolving one variable. A literal is the
  result; a reference is resolved recursively with the variable added to the visited
  set, and meeting a visited variable fails with \<open>CyclicReference\<close>. A variable without
  a value takes the process-wide default \<open>d\<close> when there is one, and is then reported
  as a warning (the second component of the result); without a default it fails with
  \<open>UnresolvedVariable\<close>.
\<close>

function resolve_ref ::
  "Theme \<Rightarrow> SkinPoint \<Rightarrow> string set \<Rightarrow> string option \<Rightarrow> string list \<Rightarrow> string
     \<Rightarrow> error + string \<times> string list" where
  "resolve_ref t p V d visited x =
     (if x \<in> set visited then Inl CyclicReference
      else case cascade t p V x of
        None \<Rightarrow> (case d of None \<Rightarrow> Inl UnresolvedVariable | Some v \<Rightarrow> Inr (v, [x]))
      | Some (Literal s) \<Rightarrow> Inr (s, [])
      | Some (Reference y) \<Rightarrow> resolve_ref t p V d (x # visited) y)"
  by pat_completeness auto
termination
proof (relation "measure (\<lambda>(t, p, V, d, visited, x). card (variable ` set (rules t) - set visited))")
  show "wf (measure (\<lambda>(t, p, V, d, visited, x). card (variable ` set (rules t) - set visited)))"
    by simp
next
  fix t :: Theme and p V and d :: "string option" and visited x v y
  assume nv: "x \<notin> set visited" and c: "cascade t p V x = Some v"
  from c have "filter (\<lambda>q. collect t (skin_id q) x \<noteq> []) (chain p) \<noteq> []"
    by (auto simp add: cascade_def Let_def split: if_splits)
  then obtain q where "collect t (skin_id q) x \<noteq> []"
    by (auto simp add: filter_empty_conv)
  then obtain r where "r \<in> set (rules t)" "variable r = x"
    by (auto simp add: collect_def filter_empty_conv)
  then have "x \<in> variable ` set (rules t) - set visited"
    using nv by auto
  then have "card ((variable ` set (rules t) - set visited) - {x})
      < card (variable ` set (rules t) - set visited)"
    by (intro card_Diff1_less) auto
  moreover have "variable ` set (rules t) - set (x # visited)
      = (variable ` set (rules t) - set visited) - {x}"
    by auto
  ultimately have "card (variable ` set (rules t) - set (x # visited))
      < card (variable ` set (rules t) - set visited)"
    by (simp only:)
  then show "((t, p, V, d, x # visited, y), (t, p, V, d, visited, x))
      \<in> measure (\<lambda>(t, p, V, d, visited, x). card (variable ` set (rules t) - set visited))"
    by simp
qed

declare resolve_ref.simps [simp del]

text \<open>
  Modelled from the spec: the ResolvedStyle of a SkinPoint resolves each exposed
  variable in turn and stops at the first error.
\<close>

fun resolve_all ::
  "Theme \<Rightarrow> SkinPoint \<Rightarrow> string set \<Rightarrow> string option \<Rightarrow> string list
     \<Rightarrow> error + ResolvedStyle \<times> string list" where
  "resolve_all t p V d [] = Inr ([], [])"
| "resolve_all t p V d (x # xs) =
     (case resolve_ref t p V d [] x of
        Inl e \<Rightarrow> Inl e
      | Inr (v, ws) \<Rightarrow>
          (case resolve_all t p V d xs of
             Inl e \<Rightarrow> Inl e
           | Inr (vs, ws') \<Rightarrow> Inr ((x, v) # vs, ws @ ws')))"

text \<open>
  Modelled from the spec: the process-wide state resolution runs in, the optional
  default value and the log that receives the warnings.
\<close>

record Env =
  default_value :: "string option"
  log :: "string list"

text \<open>
  Modelled from the spec: one resolution of a (SkinPoint, Theme, VariantSet) triple. It
  returns a fresh snapshot or an error, and appends the warnings to the log.
\<close>

definition resolve ::
  "Env \<Rightarrow> SkinPoint \<Rightarrow> Theme \<Rightarrow> string set \<Rightarrow> (error + ResolvedStyle) \<times> Env" where
  "resolve env p t V =
     (case resolve_all t p V (default_value env) (exposed p) of
        Inl e \<Rightarrow> (Inl e, env)
      | Inr (vs, ws) \<Rightarrow> (Inr vs, env\<lparr>log := log env @ ws\<rparr>))"

text \<open>
  Modelled from the spec: the Variant Resolver. A variant predicate is a named boolean
  condition over the state of an element; the built-in ones read the platform flags,
  a custom one tests an attribute for equality.
\<close>

record ElementState =
  hover :: bool
  active :: bool
  focus :: bool
  disabled :: bool
  attributes :: "(string \<times> string) list"

text \<open>Modelled from the spec: a variant predicate, a name and its condition.\<close>

type_synonym VariantPredicate = "string \<times> (ElementState \<Rightarrow> bool)"

text \<open>Modelled from the spec: the built-in variants hover, active, focus and disabled.\<close>

definition builtin_variants :: "VariantPredicate list" where
  "builtin_variants =
     [(''hover'', hover), (''active'', active), (''focus'', focus), (''disabled'', disabled)]"

text \<open>Modelled from the spec: a custom variant, an attribute-equality test.\<close>

definition attribute_equals :: "string \<Rightarrow> string \<Rightarrow> ElementState \<Rightarrow> bool" where
  "attribute_equals k v st \<longleftrightarrow> attr k (attributes st) = Some v"

text \<open>Modelled from the spec: the set of variants active for an element state.\<close>

definition activeVariants :: "VariantPredicate list \<Rightarrow> ElementState \<Rightarrow> string set" where
  "activeVariants preds st = set (map fst (filter (\<lambda>(n, holds). holds st) preds))"

text \<open>
  Modelled from the spec: the reference graph of step 5. \<open>ref_next\<close> is the variable
  that the value of a variable refers to, if it is a reference.
\<close>

definition ref_next :: "Theme \<Rightarrow> SkinPoint \<Rightarrow> string set \<Rightarrow> string \<Rightarrow> string option" where
  "ref_next t p V x = (case cascade t p V x of Some (Reference y) \<Rightarrow> Some y | _ \<Rightarrow> None)"

text \<open>Modelled from the spec: \<open>follow n\<close> walks \<open>n\<close> references from a variable.\<close>

fun follow :: "Theme \<Rightarrow> SkinPoint \<Rightarrow> string set \<Rightarrow> nat \<Rightarrow> string \<Rightarrow> string option" where
  "follow t p V 0 x = Some x"
| "follow t p V (Suc n) x = (case ref_next t p V x of None \<Rightarrow> None | Some y \<Rightarrow> follow t p V n y)"

text \<open>
  Modelled from the spec: the scenario's SkinPoint \<open>button\<close>, a root exposing the two
  hooks of the Button component.
\<close>

definition button :: SkinPoint where
  "button = SkinPoint ''button'' None [''bg'', ''text'']"

text \<open>
  Modelled from the spec: the scenario's theme \<open>dark\<close>, with a base rule for \<open>bg\<close>
  of \<open>button\<close>, a \<open>hover\<close> rule and a \<open>disabled\<close> rule declared after it.
\<close>

definition dark :: Theme where
  "dark = \<lparr>theme_id = ''dark'', rules =
     [\<lparr>target = ''button'', variable = ''bg'', predicate = {}, rule_value = Literal ''black''\<rparr>,
      \<lparr>target = ''button'', variable = ''bg'', predicate = {''hover''}, rule_value = Literal ''dark-gray''\<rparr>,
      \<lparr>target = ''button'', variable = ''bg'', predicate = {''disabled''}, rule_value = Literal ''mid-gray''\<rparr>]\<rparr>"

text \<open>Modelled from the spec: a theme whose two rules refer to each other.\<close>

definition cyclic :: Theme where
  "cyclic = \<lparr>theme_id = ''cyclic'', rules =
     [\<lparr>target = ''button'', variable = ''bg'', predicate = {}, rule_value = Reference ''text''\<rparr>,
      \<lparr>target = ''button'', variable = ''text'', predicate = {}, rule_value = Reference ''bg''\<rparr>]\<rparr>"

section \<open>Skin identifiers\<close>

text \<open>
  C1. Every child skin identifier begins with its parent's identifier; in particular the
  SearchBar's icon carries an identifier prefixed by the root identifier \<open>searchbar\<close>.
  The rendered SearchBar does not keep to this: whatever its props, the icon's skin
  identifier is \<open>icon\<close>, with the parent \<open>searchbar\<close>, and \<open>searchbar\<close> is not a prefix
  of \<open>icon\<close>.
\<close>

theorem searchbar_icon_not_prefixed:
  "(''searchbar'', ''icon'') \<in> set (skin_pairs None (SearchBar cn p)) \<and>
   \<not> prefix ''searchbar'' ''icon''"
  by (simp add: SearchBar_def attr_def Let_def)

text \<open>
  The Dropdown: every skin identifier it renders begins with the root identifier
  \<open>dropdown\<close>, for every list of options and every selection. Relative to the nearest
  enclosing skin point the chevron (inside \<open>dropdown-button\<close>) is named from the root
  instead.
\<close>

lemma skin_ids_render_option:
  "k \<in> set (skin_ids (render_option cn v opt)) \<Longrightarrow> prefix ''dropdown'' k"
  by (auto simp add: render_option_def attr_def Let_def split: if_splits)

lemma skin_ids_Dropdown:
  "k \<in> set (skin_ids (Dropdown cn p st)) \<Longrightarrow> prefix ''dropdown'' k"
proof -
  assume "k \<in> set (skin_ids (Dropdown cn p st))"
  then have "k \<in> {''dropdown'', ''dropdown-button'', ''dropdown-chevron'', ''dropdown-options''}
      \<or> (\<exists>opt. k \<in> set (skin_ids (render_option cn (listbox_value st) opt)))"
    by (auto simp add: Dropdown_def attr_def)
  then show ?thesis by (auto dest: skin_ids_render_option)
qed

lemma skin_pairs_Dropdown_button:
  "(''dropdown-button'', ''dropdown-chevron'') \<in> set (skin_pairs None (Dropdown cn p st))"
  by (simp add: Dropdown_def attr_def)

section \<open>Style hooks\<close>

lemmas hook_defs = skin_hooks_def class_names_def strip_variants_def List.map_filter_simps

lemma hooks_skinStyles: "skin_hooks skinStyles = [(''bg'', ''bg''), (''text'', ''text'')]"
  by (simp add: hook_defs skinStyles_def)
lemma hooks_container_default:
  "skin_hooks (containerStyles_skin default) = [(''bg'', ''bg''), (''text'', ''text'')]"
  by (simp add: hook_defs)
lemma hooks_container_outline:
  "skin_hooks (containerStyles_skin outline) = [(''outline'', ''outline''), (''text'', ''text'')]"
  by (simp add: hook_defs)
lemma hooks_icon: "skin_hooks iconStyles_skin = [(''text'', ''text'')]"
  by (simp add: hook_defs iconStyles_skin_def)
lemma hooks_input: "skin_hooks inputStyles_skin = [(''text'', ''text''), (''text'', ''text'')]"
  by (simp add: hook_defs inputStyles_skin_def)
lemma hooks_button:
  "skin_hooks buttonStyles_skin =
     [(''border'', ''border''), (''bg'', ''bg''), (''ring'', ''ring''), (''text'', ''text'')]"
  by (simp add: hook_defs buttonStyles_skin_def)
lemma hooks_chevron: "skin_hooks chevronStyles_skin = [(''text'', ''text'')]"
  by (simp add: hook_defs chevronStyles_skin_def)
lemma hooks_options: "skin_hooks optionsStyles_skin = [(''bg'', ''bg''), (''ring'', ''ring'')]"
  by (simp add: hook_defs optionsStyles_skin_def)
lemma hooks_option: "skin_hooks optionStyles_skin = [(''bg'', ''bg''), (''text'', ''text'')]"
  by (simp add: hook_defs optionStyles_skin_def)
lemma hooks_checkmark: "skin_hooks checkmarkStyles_skin = [(''text'', ''text'')]"
  by (simp add: hook_defs checkmarkStyles_skin_def)

lemmas hooks_all = hooks_skinStyles hooks_container_default hooks_container_outline hooks_icon
  hooks_input hooks_button hooks_chevron hooks_options hooks_option hooks_checkmark

text \<open>
  C3. Every style variable a skin string of a component references is drawn from a
  fixed vocabulary and is named after the Tailwind property it fills: in every class
  \<open>u-(--v)\<close> of every skin string, \<open>v\<close> is \<open>u\<close>, also behind a variant prefix.
\<close>

theorem hooks_named_after_property:
  "\<forall>s \<in> set skin_strings. \<forall>(u, v) \<in> set (skin_hooks s). v = u \<and> v \<in> vocabulary"
  unfolding skin_strings_def vocabulary_def
  by (simp add: hooks_all del: containerStyles_skin.simps)

theorem hooks_named_after_property_witness:
  "inputStyles_skin \<in> set skin_strings \<and> (''text'', ''text'') \<in> set (skin_hooks inputStyles_skin)
   \<and> ''text'' \<in> vocabulary"
  using hooks_named_after_property
  by (simp add: skin_strings_def hooks_input vocabulary_def)

lemma SearchBar_container:
  "attr ''className'' (node_attrs (SearchBar cn p)) =
     Some (cn [Some containerStyles_base,
               Some (containerStyles_skin (case variant p of None \<Rightarrow> default | Some v \<Rightarrow> v)),
               className p])"
  by (simp add: SearchBar_def attr_def Let_def del: containerStyles_skin.simps)

lemma SearchBar_icon:
  "map node_attrs (elements_with_tag ''MagnifyingGlassIcon'' (SearchBar cn p)) =
     [[(''data-skin'', ''icon''), (''className'', cn [Some iconStyles_base, Some iconStyles_skin])]]"
  by (simp add: SearchBar_def Let_def)

lemma SearchBar_input:
  "map node_attrs (elements_with_tag ''input'' (SearchBar cn p)) =
     [[(''type'', ''search''), (''className'', cn [Some inputStyles_base, Some inputStyles_skin])]
      @ props p]"
  by (simp add: SearchBar_def Let_def)

text \<open>
  C10. The style hooks of the SearchBar depend on its variant prop. The container
  element is given the default skin when the variant is absent or \<open>default\<close>, and the
  outline skin when it is \<open>outline\<close>; the default skin references exactly \<open>--bg\<close> and
  \<open>--text\<close>, the outline skin exactly \<open>--outline\<close> and \<open>--text\<close> and no \<open>--bg\<close>. Whatever
  the props, the icon is given the icon skin and the input the input skin, and both
  reference \<open>--text\<close>.
\<close>

theorem searchbar_hooks_by_variant:
  "attr ''className'' (node_attrs (SearchBar cn (p\<lparr>variant := None\<rparr>))) =
     Some (cn [Some containerStyles_base, Some (containerStyles_skin default), className p])
   \<and> attr ''className'' (node_attrs (SearchBar cn (p\<lparr>variant := Some default\<rparr>))) =
     Some (cn [Some containerStyles_base, Some (containerStyles_skin default), className p])
   \<and> attr ''className'' (node_attrs (SearchBar cn (p\<lparr>variant := Some outline\<rparr>))) =
     Some (cn [Some containerStyles_base, Some (containerStyles_skin outline), className p])
   \<and> skin_vars (containerStyles_skin default) = {''bg'', ''text''}
   \<and> skin_vars (containerStyles_skin outline) = {''outline'', ''text''}
   \<and> ''bg'' \<notin> skin_vars (containerStyles_skin outline)
   \<and> map node_attrs (elements_with_tag ''MagnifyingGlassIcon'' (SearchBar cn p)) =
       [[(''data-skin'', ''icon''), (''className'', cn [Some iconStyles_base, Some iconStyles_skin])]]
   \<and> map node_attrs (elements_with_tag ''input'' (SearchBar cn p)) =
       [[(''type'', ''search''), (''className'', cn [Some inputStyles_base, Some inputStyles_skin])]
        @ props p]
   \<and> skin_vars iconStyles_skin = {''text''}
   \<and> skin_vars inputStyles_skin = {''text''}"
proof -
  have vars: "skin_vars (containerStyles_skin default) = {''bg'', ''text''}"
    "skin_vars (containerStyles_skin outline) = {''outline'', ''text''}"
    "''bg'' \<notin> skin_vars (containerStyles_skin outline)"
    "skin_vars iconStyles_skin = {''text''}"
    "skin_vars inputStyles_skin = {''text''}"
    by (auto simp add: skin_vars_def hooks_all simp del: containerStyles_skin.simps)
  have container:
    "attr ''className'' (node_attrs (SearchBar cn (p\<lparr>variant := None\<rparr>))) =
       Some (cn [Some containerStyles_base, Some (containerStyles_skin default), className p])"
    "attr ''className'' (node_attrs (SearchBar cn (p\<lparr>variant := Some default\<rparr>))) =
       Some (cn [Some containerStyles_base, Some (containerStyles_skin default), className p])"
    "attr ''className'' (node_attrs (SearchBar cn (p\<lparr>variant := Some outline\<rparr>))) =
       Some (cn [Some containerStyles_base, Some (containerStyles_skin outline), className p])"
    by (simp_all add: SearchBar_container del: containerStyles_skin.simps)
  from vars container SearchBar_icon [of cn p] SearchBar_input [of cn p] show ?thesis
    by blast
qed

section \<open>Configuration and selection\<close>

text \<open>
  C4, as the claim states it: the Dropdown's configuration is exactly options, value and
  onChange. Two configurations that agree on these three still render different button
  texts, because the component also takes a placeholder.
\<close>

theorem dropdown_surface_counterexample:
  "options \<lparr>options = Array 0 [], value_prop = None,
      onChange = (None :: (string \<Rightarrow> unit \<Rightarrow> unit) option), placeholder = None\<rparr>
   = options \<lparr>options = Array 0 [], value_prop = None,
      onChange = (None :: (string \<Rightarrow> unit \<Rightarrow> unit) option), placeholder = Some ''Pick one''\<rparr>
   \<and> button_text \<lparr>options = Array 0 [], value_prop = None,
      onChange = (None :: (string \<Rightarrow> unit \<Rightarrow> unit) option), placeholder = None\<rparr> Dropdown_init
   \<noteq> button_text \<lparr>options = Array 0 [], value_prop = None,
      onChange = (None :: (string \<Rightarrow> unit \<Rightarrow> unit) option), placeholder = Some ''Pick one''\<rparr> Dropdown_init"
  by (simp add: button_text_def Dropdown_init_def)

text \<open>
  C4, amended. Button takes an optional size, one of sm, md and lg with three different
  size classes, and renders sm when it is absent. SearchBar takes an optional variant,
  default or outline with two different container skins, and renders default when it is
  absent. Dropdown takes options, an optional value, an optional onChange and an
  optional placeholder: after mounting, the button shows the label of the first option
  whose value is the value prop, or else the placeholder, which is
  \<open>Select an option...\<close> when absent; a selection hands the new value to onChange.
\<close>

theorem configuration_surface:
  "(UNIV :: Size set) = {sm, md, lg}
   \<and> distinct (map sizeStyles [sm, md, lg])
   \<and> Button cn (p\<lparr>size := None\<rparr>) = Button cn (p\<lparr>size := Some sm\<rparr>)
   \<and> (UNIV :: Variant set) = {default, outline}
   \<and> containerStyles_skin default \<noteq> containerStyles_skin outline
   \<and> SearchBar cn (q\<lparr>variant := None\<rparr>) = SearchBar cn (q\<lparr>variant := Some default\<rparr>)
   \<and> button_text d (Dropdown_mount d) =
       (case find (\<lambda>opt. Some (value opt) = value_prop d) (elems (options d)) of
          Some opt \<Rightarrow> label opt
        | None \<Rightarrow> (case placeholder d of None \<Rightarrow> ''Select an option...'' | Some s \<Rightarrow> s))
   \<and> snd (handleChange d val (st, w)) = (case onChange d of None \<Rightarrow> w | Some f \<Rightarrow> f val w)"
proof -
  have 1: "(UNIV :: Size set) = {sm, md, lg}"
    using Size.exhaust by auto
  have 2: "(UNIV :: Variant set) = {default, outline}"
    using Variant.exhaust by auto
  show ?thesis
    by (simp add: 1 2 Button_def SearchBar_def button_text_def Dropdown_mount_def
        Dropdown_effect_def Dropdown_init_def handleChange_def split: option.split)
qed

lemma find_value_in:
  "opt \<in> set xs \<Longrightarrow> \<exists>sel. find (\<lambda>x. value x = value opt) xs = Some sel \<and> sel \<in> set xs \<and> value sel = value opt"
  by (induction xs) auto

lemma find_value_distinct:
  "opt \<in> set xs \<Longrightarrow> distinct (map value xs) \<Longrightarrow> find (\<lambda>x. value x = value opt) xs = Some opt"
  by (induction xs) (auto simp: image_iff)

text \<open>What the rendered Dropdown shows for a given state.\<close>

lemma no_button_in_options:
  "concat (map (elements_with_skin ''dropdown-button'') (map (render_option cn v) xs)) = []"
  by (induction xs) (simp_all add: render_option_def attr_def Let_def)

lemma Dropdown_button_shows:
  "map text_content (elements_with_skin ''dropdown-button'' (Dropdown cn p st)) = [button_text p st]"
  using no_button_in_options [of cn "listbox_value st" "elems (options p)"]
  by (simp add: Dropdown_def attr_def)

lemma Dropdown_listbox_value:
  "attr ''value'' (node_attrs (Dropdown cn p st)) = Some (listbox_value st)"
  by (simp add: Dropdown_def attr_def)

lemma checkmarks_in_options:
  "length (concat (map (elements_with_skin ''dropdown-option-checkmark'') (map (render_option cn v) xs)))
     = length (filter (\<lambda>x. value x = v) xs)"
  by (induction xs) (simp_all add: render_option_def attr_def Let_def)

lemma Dropdown_checkmarks:
  "length (elements_with_skin ''dropdown-option-checkmark'' (Dropdown cn p st))
     = length (filter (\<lambda>x. value x = listbox_value st) (elems (options p)))"
  using checkmarks_in_options [of cn "listbox_value st" "elems (options p)"]
  by (simp add: Dropdown_def attr_def)

text \<open>
  C5. When an option with value \<open>val\<close> is selected, onChange (if provided) is invoked
  once with \<open>val\<close>: the world after the selection is the callback applied to \<open>val\<close> and
  the world before. The selection becomes an option of the list whose value is \<open>val\<close>
  (the option itself when the values of the list are distinct). The Dropdown rendered
  in the new state hands \<open>val\<close> to the Listbox, shows the label of that option in its
  button, and marks with a check mark the options whose value is \<open>val\<close>.
\<close>

theorem handleChange_selects:
  assumes "opt \<in> set (elems (options p))" and "value opt = val"
  shows "\<exists>sel. handleChange p val (st, w) =
            (st\<lparr>selectedOption := Some sel\<rparr>,
             case onChange p of None \<Rightarrow> w | Some f \<Rightarrow> f val w)
          \<and> sel \<in> set (elems (options p)) \<and> value sel = val
          \<and> (distinct (map value (elems (options p))) \<longrightarrow> sel = opt)
          \<and> button_text p (st\<lparr>selectedOption := Some sel\<rparr>) = label sel
          \<and> attr ''value'' (node_attrs (Dropdown cn p (fst (handleChange p val (st, w))))) = Some val
          \<and> map text_content
               (elements_with_skin ''dropdown-button''
                  (Dropdown cn p (fst (handleChange p val (st, w))))) = [label sel]
          \<and> length (elements_with_skin ''dropdown-option-checkmark''
                  (Dropdown cn p (fst (handleChange p val (st, w)))))
              = length (filter (\<lambda>x. value x = val) (elems (options p)))"
proof -
  from find_value_in [OF assms(1)] assms(2) obtain sel where
    sel: "find (\<lambda>x. value x = val) (elems (options p)) = Some sel"
      "sel \<in> set (elems (options p))" "value sel = val"
    by auto
  have d: "distinct (map value (elems (options p))) \<longrightarrow> sel = opt"
    using find_value_distinct [OF assms(1)] assms(2) sel(1) by auto
  have h: "handleChange p val (st, w) =
      (st\<lparr>selectedOption := Some sel\<rparr>, case onChange p of None \<Rightarrow> w | Some f \<Rightarrow> f val w)"
    using sel(1) by (simp add: handleChange_def)
  have lv: "listbox_value (st\<lparr>selectedOption := Some sel\<rparr>) = val"
    using sel(3) by (simp add: listbox_value_def)
  have bt: "button_text p (st\<lparr>selectedOption := Some sel\<rparr>) = label sel"
    by (simp add: button_text_def)
  from h sel(2,3) d bt lv show ?thesis
    by (auto simp add: Dropdown_listbox_value Dropdown_button_shows Dropdown_checkmarks)
qed

theorem handleChange_selects_witness:
  "\<exists>sel. handleChange
      \<lparr>options = Array 0 [\<lparr>label = ''A'', value = ''a''\<rparr>, \<lparr>label = ''B'', value = ''b''\<rparr>],
       value_prop = None, onChange = Some (\<lambda>v log. log @ [v]), placeholder = None\<rparr>
      ''b'' (Dropdown_init, []) = (\<lparr>selectedOption = Some sel\<rparr>, [''b''])
    \<and> sel = \<lparr>label = ''B'', value = ''b''\<rparr>"
  using handleChange_selects
    [of "\<lparr>label = ''B'', value = ''b''\<rparr>"
        "\<lparr>options = Array 0 [\<lparr>label = ''A'', value = ''a''\<rparr>, \<lparr>label = ''B'', value = ''b''\<rparr>],
          value_prop = None, onChange = Some (\<lambda>v log. log @ [v]), placeholder = None\<rparr>"
        "''b''" Dropdown_init "[]"]
  by (simp add: Dropdown_init_def)

lemma effect_no_match:
  "\<forall>opt \<in> set xs. Some (value opt) \<noteq> v \<Longrightarrow> find (\<lambda>opt. Some (value opt) = v) xs = None"
  by (induction xs) auto

text \<open>
  C9, as the claim states it: whenever no option's value equals the value prop, the
  selection is null and the button shows the placeholder. With the options A and B and
  no value prop, no option matches; after the user selects \<open>b\<close> the selection is B, it
  stays B over a render with unchanged props, and the button shows \<open>B\<close>.
\<close>

theorem selection_without_match_counterexample:
  "Some (value \<lparr>label = ''A'', value = ''a''\<rparr>) \<noteq> value_prop
       \<lparr>options = Array 0 [\<lparr>label = ''A'', value = ''a''\<rparr>, \<lparr>label = ''B'', value = ''b''\<rparr>],
        value_prop = None, onChange = (None :: (string \<Rightarrow> unit \<Rightarrow> unit) option), placeholder = None\<rparr>
   \<and> Some (value \<lparr>label = ''B'', value = ''b''\<rparr>) \<noteq> value_prop
       \<lparr>options = Array 0 [\<lparr>label = ''A'', value = ''a''\<rparr>, \<lparr>label = ''B'', value = ''b''\<rparr>],
        value_prop = None, onChange = (None :: (string \<Rightarrow> unit \<Rightarrow> unit) option), placeholder = None\<rparr>
   \<and> selectedOption
       (fst (handleChange
       \<lparr>options = Array 0 [\<lparr>label = ''A'', value = ''a''\<rparr>, \<lparr>label = ''B'', value = ''b''\<rparr>],
        value_prop = None, onChange = (None :: (string \<Rightarrow> unit \<Rightarrow> unit) option), placeholder = None\<rparr>
       ''b''
       (Dropdown_mount
          \<lparr>options = Array 0 [\<lparr>label = ''A'', value = ''a''\<rparr>, \<lparr>label = ''B'', value = ''b''\<rparr>],
        value_prop = None, onChange = (None :: (string \<Rightarrow> unit \<Rightarrow> unit) option), placeholder = None\<rparr>, ()))) = Some \<lparr>label = ''B'', value = ''b''\<rparr>
   \<and> selectedOption
       (Dropdown_update
          \<lparr>options = Array 0 [\<lparr>label = ''A'', value = ''a''\<rparr>, \<lparr>label = ''B'', value = ''b''\<rparr>],
        value_prop = None, onChange = (None :: (string \<Rightarrow> unit \<Rightarrow> unit) option), placeholder = None\<rparr>
          \<lparr>options = Array 0 [\<lparr>label = ''A'', value = ''a''\<rparr>, \<lparr>label = ''B'', value = ''b''\<rparr>],
        value_prop = None, onChange = (None :: (string \<Rightarrow> unit \<Rightarrow> unit) option), placeholder = None\<rparr>
          (fst (handleChange
       \<lparr>options = Array 0 [\<lparr>label = ''A'', value = ''a''\<rparr>, \<lparr>label = ''B'', value = ''b''\<rparr>],
        value_prop = None, onChange = (None :: (string \<Rightarrow> unit \<Rightarrow> unit) option), placeholder = None\<rparr>
       ''b''
       (Dropdown_mount
          \<lparr>options = Array 0 [\<lparr>label = ''A'', value = ''a''\<rparr>, \<lparr>label = ''B'', value = ''b''\<rparr>],
        value_prop = None, onChange = (None :: (string \<Rightarrow> unit \<Rightarrow> unit) option), placeholder = None\<rparr>, ())))) = Some \<lparr>label = ''B'', value = ''b''\<rparr>
   \<and> map text_content
        (elements_with_skin ''dropdown-button''
           (Dropdown (concat \<circ> map (case_option [] id))
              \<lparr>options = Array 0 [\<lparr>label = ''A'', value = ''a''\<rparr>, \<lparr>label = ''B'', value = ''b''\<rparr>],
        value_prop = None, onChange = (None :: (string \<Rightarrow> unit \<Rightarrow> unit) option), placeholder = None\<rparr>
              (fst (handleChange
       \<lparr>options = Array 0 [\<lparr>label = ''A'', value = ''a''\<rparr>, \<lparr>label = ''B'', value = ''b''\<rparr>],
        value_prop = None, onChange = (None :: (string \<Rightarrow> unit \<Rightarrow> unit) option), placeholder = None\<rparr>
       ''b''
       (Dropdown_mount
          \<lparr>options = Array 0 [\<lparr>label = ''A'', value = ''a''\<rparr>, \<lparr>label = ''B'', value = ''b''\<rparr>],
        value_prop = None, onChange = (None :: (string \<Rightarrow> unit \<Rightarrow> unit) option), placeholder = None\<rparr>, ()))))) = [''B'']"
  by (simp add: handleChange_def Dropdown_mount_def Dropdown_effect_def Dropdown_init_def
      Dropdown_update_def deps_changed_def Dropdown_button_shows button_text_def)

text \<open>
  C9, amended. The selection is null on the first render; after mounting, and after
  every render in which the options or the value prop changed, it is recomputed as the
  first option whose value equals the value prop, whatever it was before; a render
  with unchanged options and value leaves it as it is. So on the first render, after
  mounting and after every such change, if no option's value equals the value prop (an
  absent one included), the selection is null and the rendered button shows the
  placeholder, \<open>Select an option...\<close> by default.
\<close>

theorem placeholder_when_no_match:
  "selectedOption Dropdown_init = None
   \<and> selectedOption (Dropdown_mount p)
       = find (\<lambda>opt. Some (value opt) = value_prop p) (elems (options p))
   \<and> (deps_changed prev p \<longrightarrow>
        selectedOption (Dropdown_update prev p st)
          = find (\<lambda>opt. Some (value opt) = value_prop p) (elems (options p)))
   \<and> (\<not> deps_changed prev p \<longrightarrow> Dropdown_update prev p st = st)
   \<and> ((\<forall>opt \<in> set (elems (options p)). Some (value opt) \<noteq> value_prop p) \<longrightarrow>
        button_text p Dropdown_init =
          (case placeholder p of None \<Rightarrow> ''Select an option...'' | Some s \<Rightarrow> s)
      \<and> map text_content (elements_with_skin ''dropdown-button'' (Dropdown cn p Dropdown_init)) =
          [case placeholder p of None \<Rightarrow> ''Select an option...'' | Some s \<Rightarrow> s]
      \<and> selectedOption (Dropdown_mount p) = None
      \<and> button_text p (Dropdown_mount p) =
          (case placeholder p of None \<Rightarrow> ''Select an option...'' | Some s \<Rightarrow> s)
      \<and> map text_content
           (elements_with_skin ''dropdown-button'' (Dropdown cn p (Dropdown_mount p))) =
          [case placeholder p of None \<Rightarrow> ''Select an option...'' | Some s \<Rightarrow> s]
      \<and> (deps_changed prev p \<longrightarrow>
            selectedOption (Dropdown_update prev p st) = None
          \<and> button_text p (Dropdown_update prev p st) =
              (case placeholder p of None \<Rightarrow> ''Select an option...'' | Some s \<Rightarrow> s)
          \<and> map text_content
               (elements_with_skin ''dropdown-button''
                  (Dropdown cn p (Dropdown_update prev p st))) =
              [case placeholder p of None \<Rightarrow> ''Select an option...'' | Some s \<Rightarrow> s]))"
proof -
  have sync: "selectedOption (Dropdown_effect p s)
      = find (\<lambda>opt. Some (value opt) = value_prop p) (elems (options p))" for s
    by (simp add: Dropdown_effect_def)
  have none: "find (\<lambda>opt. Some (value opt) = value_prop p) (elems (options p)) = None"
    if "\<forall>opt \<in> set (elems (options p)). Some (value opt) \<noteq> value_prop p"
    using that by (rule effect_no_match)
  show ?thesis
    using none
    by (simp add: sync Dropdown_init_def Dropdown_mount_def Dropdown_update_def button_text_def
        Dropdown_button_shows)
qed

theorem placeholder_when_no_match_witness:
  "map text_content
     (elements_with_skin ''dropdown-button''
        (Dropdown (concat \<circ> map (case_option [] id))
           \<lparr>options = Array 2 [\<lparr>label = ''A'', value = ''a''\<rparr>], value_prop = None,
           onChange = (None :: (string \<Rightarrow> unit \<Rightarrow> unit) option), placeholder = None\<rparr>
           (Dropdown_update
              \<lparr>options = Array 0 [\<lparr>label = ''A'', value = ''a''\<rparr>], value_prop = Some ''a'',
              onChange = (None :: (string \<Rightarrow> unit \<Rightarrow> unit) option), placeholder = None\<rparr>
              \<lparr>options = Array 2 [\<lparr>label = ''A'', value = ''a''\<rparr>], value_prop = None,
           onChange = (None :: (string \<Rightarrow> unit \<Rightarrow> unit) option), placeholder = None\<rparr>
              \<lparr>selectedOption = Some \<lparr>label = ''A'', value = ''a''\<rparr>\<rparr>)))
   = [''Select an option...'']"
  (is "map text_content (elements_with_skin _ (Dropdown ?cn ?p (Dropdown_update ?prev ?q ?st))) = _")
proof -
  have h: "\<forall>opt \<in> set (elems (options ?p)). Some (value opt) \<noteq> value_prop ?p"
    by simp
  have d: "deps_changed ?prev ?p"
    by (simp add: deps_changed_def)
  from placeholder_when_no_match [of ?p ?prev ?st ?cn] h d
  have "map text_content
          (elements_with_skin ''dropdown-button'' (Dropdown ?cn ?p (Dropdown_update ?prev ?p ?st))) =
          [case placeholder ?p of None \<Rightarrow> ''Select an option...'' | Some s \<Rightarrow> s]"
    by blast
  then show ?thesis
    by simp
qed

section \<open>The cascade\<close>

lemma last_chain: "chain p \<noteq> [] \<and> last (chain p) = p"
  by (induction p rule: chain.induct) auto

lemma foldl_overrides:
  "foldl (\<lambda>cur r. if overrides V r then Some (rule_value r) else cur) s rs =
     (if filter (overrides V) rs = [] then s
      else Some (rule_value (last (filter (overrides V) rs))))"
  by (induction rs rule: rev_induct) auto

lemma cascade_self:
  assumes "collect t (skin_id p) x \<noteq> []"
  shows "cascade t p V x = point_value (collect t (skin_id p) x) V"
proof -
  obtain qs where qs: "chain p = qs @ [p]"
    using last_chain [of p] by (metis append_butlast_last_id)
  with assms have "filter (\<lambda>q. collect t (skin_id q) x \<noteq> []) (chain p)
      = filter (\<lambda>q. collect t (skin_id q) x \<noteq> []) qs @ [p]"
    by simp
  then show ?thesis
    by (simp add: cascade_def Let_def)
qed

lemma cascade_undefined:
  assumes "\<forall>q \<in> set (chain p). collect t (skin_id q) x = []"
  shows "cascade t p V x = None"
proof -
  from assms have "filter (\<lambda>q. collect t (skin_id q) x \<noteq> []) (chain p) = []"
    by (simp add: filter_empty_conv)
  then show ?thesis by (simp add: cascade_def Let_def)
qed

lemmas eval_defs = cascade_def Let_def collect_def point_value_def base_value_def overrides_def

text \<open>
  C2. Among the variant rules of a SkinPoint whose predicates are non-empty subsets of
  the active variant set, the one declared last gives the value. In the scenario, with
  base \<open>bg = black\<close>, a \<open>hover\<close> rule \<open>dark-gray\<close> and a later \<open>disabled\<close> rule
  \<open>mid-gray\<close>, resolving \<open>bg\<close> yields black for no variant, dark-gray for \<open>hover\<close>, and
  mid-gray for \<open>hover\<close> and \<open>disabled\<close> together.
\<close>

theorem last_declared_variant_wins:
  "(filter (overrides V) (collect t (skin_id p) x) \<noteq> [] \<longrightarrow>
      cascade t p V x = Some (rule_value (last (filter (overrides V) (collect t (skin_id p) x)))))
   \<and> resolve_ref dark button {} None [] ''bg'' = Inr (''black'', [])
   \<and> resolve_ref dark button {''hover''} None [] ''bg'' = Inr (''dark-gray'', [])
   \<and> resolve_ref dark button {''hover'', ''disabled''} None [] ''bg'' = Inr (''mid-gray'', [])"
proof -
  have g: "filter (overrides V) (collect t (skin_id p) x) \<noteq> [] \<longrightarrow>
      cascade t p V x = Some (rule_value (last (filter (overrides V) (collect t (skin_id p) x))))"
  proof
    assume a: "filter (overrides V) (collect t (skin_id p) x) \<noteq> []"
    then have "collect t (skin_id p) x \<noteq> []" by auto
    then have "cascade t p V x = point_value (collect t (skin_id p) x) V"
      by (rule cascade_self)
    with a show "cascade t p V x =
        Some (rule_value (last (filter (overrides V) (collect t (skin_id p) x))))"
      by (simp add: point_value_def foldl_overrides)
  qed
  have 1: "resolve_ref dark button {} None [] ''bg'' = Inr (''black'', [])"
    by (simp add: resolve_ref.simps eval_defs dark_def button_def)
  have 2: "resolve_ref dark button {''hover''} None [] ''bg'' = Inr (''dark-gray'', [])"
    by (simp add: resolve_ref.simps eval_defs dark_def button_def)
  have 3: "resolve_ref dark button {''hover'', ''disabled''} None [] ''bg'' = Inr (''mid-gray'', [])"
    by (simp add: resolve_ref.simps eval_defs dark_def button_def)
  from g 1 2 3 show ?thesis by blast
qed

theorem last_declared_variant_wins_witness:
  "filter (overrides {''hover'', ''disabled''}) (collect dark (skin_id button) ''bg'') \<noteq> []
   \<and> cascade dark button {''hover'', ''disabled''} ''bg'' = Some (Literal ''mid-gray'')"
proof -
  have h: "filter (overrides {''hover'', ''disabled''}) (collect dark (skin_id button) ''bg'')
      = [\<lparr>target = ''button'', variable = ''bg'', predicate = {''hover''}, rule_value = Literal ''dark-gray''\<rparr>,
         \<lparr>target = ''button'', variable = ''bg'', predicate = {''disabled''}, rule_value = Literal ''mid-gray''\<rparr>]"
    by (simp add: collect_def overrides_def dark_def button_def)
  with last_declared_variant_wins [of "{''hover'', ''disabled''}" dark button "''bg''"]
  show ?thesis by simp
qed

section \<open>Unthemed variables\<close>

lemma resolve_all_mem:
  "x \<in> set xs \<Longrightarrow> resolve_all t p V d xs = Inr (vs, ws) \<Longrightarrow>
     \<exists>v w. resolve_ref t p V d [] x = Inr (v, w) \<and> (x, v) \<in> set vs \<and> set w \<subseteq> set ws"
proof (induction xs arbitrary: vs ws)
  case Nil
  then show ?case by simp
next
  case (Cons y ys)
  from Cons.prems(2) obtain v w vs' ws' where
    y: "resolve_ref t p V d [] y = Inr (v, w)" and
    ys: "resolve_all t p V d ys = Inr (vs', ws')" and
    eq: "vs = (y, v) # vs'" "ws = w @ ws'"
    by (auto split: sum.splits prod.splits)
  show ?case
  proof (cases "x = y")
    case True
    with y eq show ?thesis by auto
  next
    case False
    with Cons.prems(1) have "x \<in> set ys" by simp
    from Cons.IH [OF this ys] eq show ?thesis by auto
  qed
qed

text \<open>
  C6. If no SkinPoint in the ancestor chain of \<open>p\<close> defines a rule for \<open>x\<close> under the
  theme, resolving \<open>x\<close> fails with \<open>UnresolvedVariable\<close> when there is no process-wide
  default, and returns the default together with a warning for \<open>x\<close>, not an error, when
  there is one. For an exposed \<open>x\<close> the snapshot of \<open>p\<close> accordingly fails without a
  default and leaves the log as it was; with a default every snapshot maps \<open>x\<close> to the
  default and the log names \<open>x\<close>.
\<close>

theorem unresolved_or_default:
  assumes "\<forall>q \<in> set (chain p). collect t (skin_id q) x = []"
  shows "resolve_ref t p V None [] x = Inl UnresolvedVariable
       \<and> resolve_ref t p V (Some d) [] x = Inr (d, [x])
       \<and> (x \<in> set (exposed p) \<longrightarrow>
            (\<exists>e. resolve \<lparr>default_value = None, log = l\<rparr> p t V
                   = (Inl e, \<lparr>default_value = None, log = l\<rparr>))
          \<and> (\<forall>vs env. resolve \<lparr>default_value = Some d, log = l\<rparr> p t V = (Inr vs, env) \<longrightarrow>
                (x, d) \<in> set vs \<and> x \<in> set (log env)))"
proof -
  have c: "cascade t p V x = None"
    using assms by (rule cascade_undefined)
  have 1: "resolve_ref t p V None [] x = Inl UnresolvedVariable"
    by (simp add: resolve_ref.simps c)
  have 2: "resolve_ref t p V (Some d) [] x = Inr (d, [x])"
    by (simp add: resolve_ref.simps c)
  have 3: "\<exists>e. resolve \<lparr>default_value = None, log = l\<rparr> p t V
                   = (Inl e, \<lparr>default_value = None, log = l\<rparr>)"
    if x: "x \<in> set (exposed p)"
  proof (cases "resolve_all t p V None (exposed p)")
    case (Inl e)
    then show ?thesis by (simp add: resolve_def)
  next
    case (Inr r)
    obtain vs ws where "r = (vs, ws)" by (cases r)
    with Inr resolve_all_mem [OF x, of t p V None vs ws] 1 show ?thesis by auto
  qed
  have 4: "(x, d) \<in> set vs \<and> x \<in> set (log env)"
    if x: "x \<in> set (exposed p)"
      and r: "resolve \<lparr>default_value = Some d, log = l\<rparr> p t V = (Inr vs, env)" for vs env
  proof -
    from r obtain ws where a: "resolve_all t p V (Some d) (exposed p) = Inr (vs, ws)"
      and env: "env = \<lparr>default_value = Some d, log = l @ ws\<rparr>"
      by (auto simp add: resolve_def split: sum.splits prod.splits)
    from resolve_all_mem [OF x a] 2 env show ?thesis by auto
  qed
  from 1 2 3 4 show ?thesis by blast
qed

theorem unresolved_or_default_witness:
  "chain button = [button] \<and> collect dark (skin_id button) ''text'' = []
   \<and> resolve_ref dark button {} None [] ''text'' = Inl UnresolvedVariable
   \<and> resolve_ref dark button {} (Some ''gray'') [] ''text'' = Inr (''gray'', [''text''])
   \<and> resolve \<lparr>default_value = Some ''gray'', log = []\<rparr> button dark {}
       = (Inr [(''bg'', ''black''), (''text'', ''gray'')], \<lparr>default_value = Some ''gray'', log = [''text'']\<rparr>)"
proof -
  have h: "\<forall>q \<in> set (chain button). collect dark (skin_id q) ''text'' = []"
    by (simp add: button_def dark_def collect_def)
  have bg: "resolve_ref dark button {} (Some ''gray'') [] ''bg'' = Inr (''black'', [])"
    by (simp add: resolve_ref.simps eval_defs dark_def button_def)
  have c: "chain button = [button]" "collect dark (skin_id button) ''text'' = []"
    by (simp_all add: button_def dark_def collect_def)
  from unresolved_or_default [OF h, of "{}" "''gray''" "[]"] bg c show ?thesis
    by (simp add: resolve_def button_def)
qed

section \<open>Reference cycles\<close>

lemma follow_add:
  "follow t p V (m + n) x = (case follow t p V m x of None \<Rightarrow> None | Some y \<Rightarrow> follow t p V n y)"
  by (induction m arbitrary: x) (auto split: option.splits)

lemma follow_cycle_total:
  assumes "0 < k" and "follow t p V k z = Some z"
  shows "follow t p V n z \<noteq> None"
proof (induction n rule: less_induct)
  case (less n)
  show ?case
  proof (cases "n < k")
    case True
    then have "k = n + (k - n)" by simp
    then have "follow t p V k z =
        (case follow t p V n z of None \<Rightarrow> None | Some y \<Rightarrow> follow t p V (k - n) y)"
      using follow_add [of t p V n "k - n" z] by simp
    with assms(2) show ?thesis by (auto split: option.splits)
  next
    case False
    then have "n = k + (n - k)" by simp
    then have "follow t p V n z =
        (case follow t p V k z of None \<Rightarrow> None | Some y \<Rightarrow> follow t p V (n - k) y)"
      using follow_add [of t p V k "n - k" z] by simp
    with assms(2) have "follow t p V n z = follow t p V (n - k) z" by simp
    moreover from False assms(1) have "n - k < n" by simp
    ultimately show ?thesis using less.IH by simp
  qed
qed

lemma follow_into_total:
  assumes "follow t p V m x = Some z" and "\<forall>n. follow t p V n z \<noteq> None"
  shows "follow t p V n x \<noteq> None"
proof (cases "n < m")
  case True
  then have "m = n + (m - n)" by simp
  then have "follow t p V m x =
      (case follow t p V n x of None \<Rightarrow> None | Some y \<Rightarrow> follow t p V (m - n) y)"
    using follow_add [of t p V n "m - n" x] by simp
  with assms(1) show ?thesis by (auto split: option.splits)
next
  case False
  then have "n = m + (n - m)" by simp
  then have "follow t p V n x =
      (case follow t p V m x of None \<Rightarrow> None | Some y \<Rightarrow> follow t p V (n - m) y)"
    using follow_add [of t p V m "n - m" x] by simp
  with assms show ?thesis by simp
qed

lemma endless_is_cyclic:
  "\<forall>n. follow t p V n x \<noteq> None \<Longrightarrow> resolve_ref t p V d visited x = Inl CyclicReference"
proof (induction t p V d visited x rule: resolve_ref.induct)
  case (1 t p V d visited x)
  show ?case
  proof (cases "x \<in> set visited")
    case True
    then show ?thesis by (simp add: resolve_ref.simps)
  next
    case False
    from "1.prems" have "follow t p V (Suc 0) x \<noteq> None" by blast
    then obtain y where y: "ref_next t p V x = Some y"
      by (auto split: option.splits)
    then have c: "cascade t p V x = Some (Reference y)"
      by (auto simp add: ref_next_def split: option.splits Value.splits)
    have "\<forall>n. follow t p V n y \<noteq> None"
    proof
      fix n
      from "1.prems" have "follow t p V (Suc n) x \<noteq> None" by blast
      with y show "follow t p V n y \<noteq> None" by simp
    qed
    with "1.IH" [OF False c] have "resolve_ref t p V d (x # visited) y = Inl CyclicReference"
      by simp
    with False c show ?thesis by (simp add: resolve_ref.simps)
  qed
qed

text \<open>
  C7. Resolving a variable terminates on every input: the recursion through references
  is well-founded (each call adds a themed variable to the visited set), so the
  defining equation holds without any condition. A reference cycle is detected: when
  the references from \<open>x\<close> lead, in any number of steps, to a variable \<open>z\<close> that
  refers back to itself in \<open>k > 0\<close> steps, the result is \<open>CyclicReference\<close>.
\<close>

theorem cyclic_reference_detected:
  "resolve_ref t p V d visited x =
     (if x \<in> set visited then Inl CyclicReference
      else case cascade t p V x of
        None \<Rightarrow> (case d of None \<Rightarrow> Inl UnresolvedVariable | Some v \<Rightarrow> Inr (v, [x]))
      | Some (Literal s) \<Rightarrow> Inr (s, [])
      | Some (Reference y) \<Rightarrow> resolve_ref t p V d (x # visited) y)
   \<and> (follow t p V m x = Some z \<and> 0 < k \<and> follow t p V k z = Some z \<longrightarrow>
        resolve_ref t p V d [] x = Inl CyclicReference)"
proof -
  have "resolve_ref t p V d [] x = Inl CyclicReference"
    if "follow t p V m x = Some z" and "0 < k" and "follow t p V k z = Some z"
  proof -
    have "\<forall>n. follow t p V n z \<noteq> None"
      using follow_cycle_total [OF that(2) that(3)] by simp
    then have "\<forall>n. follow t p V n x \<noteq> None"
      using follow_into_total [OF that(1)] by simp
    then show ?thesis by (rule endless_is_cyclic)
  qed
  then show ?thesis
    using resolve_ref.simps [of t p V d visited x] by blast
qed

theorem cyclic_reference_detected_witness:
  "follow cyclic button {} 0 ''bg'' = Some ''bg'' \<and> follow cyclic button {} 2 ''bg'' = Some ''bg''
   \<and> resolve_ref cyclic button {} None [] ''bg'' = Inl CyclicReference"
proof -
  have c1: "cascade cyclic button {} ''bg'' = Some (Reference ''text'')"
    by (simp add: eval_defs cyclic_def button_def)
  have c2: "cascade cyclic button {} ''text'' = Some (Reference ''bg'')"
    by (simp add: eval_defs cyclic_def button_def)
  have f0: "follow cyclic button {} 0 ''bg'' = Some ''bg''" by simp
  have f2: "follow cyclic button {} 2 ''bg'' = Some ''bg''"
    by (simp add: numeral_2_eq_2 ref_next_def c1 c2)
  have k: "(0::nat) < 2" by simp
  have "resolve_ref cyclic button {} None [] ''bg'' = Inl CyclicReference"
    using cyclic_reference_detected [of cyclic button "{}" None "[]" "''bg''" 0 "''bg''" 2] f0 f2 k
    by blast
  with f0 f2 show ?thesis by simp
qed

section \<open>Repeated resolution\<close>

lemma resolve_result:
  "fst (resolve env p t V) =
     (case resolve_all t p V (default_value env) (exposed p) of Inl e \<Rightarrow> Inl e | Inr (vs, ws) \<Rightarrow> Inr vs)"
  by (simp add: resolve_def split: sum.splits prod.splits)

lemma resolve_default:
  "default_value (snd (resolve env p t V)) = default_value env"
  by (simp add: resolve_def split: sum.splits prod.splits)

text \<open>
  C8. Resolving the same (SkinPoint, Theme, VariantSet) triple twice, the second time in
  the state the first resolution left behind, yields the same snapshot (or the same
  error); so it does when the variant set is the one the variant predicates compute
  from an element state. Resolution changes the log only, and the log does not
  enter the result.
\<close>

theorem resolution_idempotent:
  "fst (resolve (snd (resolve env p t V)) p t V) = fst (resolve env p t V)
   \<and> fst (resolve (snd (resolve env p t (activeVariants preds st))) p t (activeVariants preds st))
       = fst (resolve env p t (activeVariants preds st))"
  by (simp add: resolve_result resolve_default)

end
